theory Spec2Isabelle
  imports Complex_Main "HOL-Library.Word"
begin

section \<open>Python values\<close>

text \<open>
  A Python \<open>str\<close> is a sequence of Unicode code points; \<open>len\<close>, indexing and the
  regular expressions of \<open>app.py\<close> all work on code points, so a \<open>str\<close> is modelled
  as a list of code-point numbers. \<open>S\<close> turns an ASCII literal into such a list.
  Uploaded file contents are \<open>bytes\<close>.
\<close>

type_synonym pystr = "nat list"
type_synonym bytes = "8 word list"

abbreviation ch :: "char \<Rightarrow> nat" where
  "ch c \<equiv> of_char c"

definition S :: "string \<Rightarrow> pystr" where
  "S cs = map of_char cs"

text \<open>
  A Python \<open>float\<close> is an IEEE 754 double: a finite value (an exact rational), negative
  zero, an infinity or NaN. \<open>Finite 0\<close> is \<open>+0.0\<close>.
\<close>

datatype pyfloat = Finite rat | NegZero | PosInf | NegInf | NaN

text \<open>What \<open>json.loads\<close> returns: \<open>None\<close>, \<open>bool\<close>, \<open>int\<close>, \<open>float\<close>, \<open>str\<close>, \<open>list\<close>, \<open>dict\<close>.
  A \<open>dict\<close> is an association list in insertion order.\<close>

datatype json =
    JNull
  | JBool bool
  | JInt int
  | JFloat pyfloat
  | JStr pystr
  | JArr "json list"
  | JObj "(pystr \<times> json) list"

text \<open>The exceptions that the code of \<open>app.py\<close> and the builtins it calls can raise.
  Only the message that \<open>app.py\<close> itself gives to a \<open>ValueError\<close> is modelled; a
  builtin's \<open>ValueError\<close> carries the empty message.\<close>

datatype py_error =
    ValueError pystr
  | JSONDecodeError
  | TypeError
  | OverflowError
  | AttributeError
  | ValidationError
  | UnicodeEncodeError

subsection \<open>Rounding to a double\<close>

text \<open>
  \<open>float(...)\<close> of a decimal literal or of an \<open>int\<close> is the nearest double, ties to the
  even mantissa. \<open>double_round\<close> works on a magnitude and returns \<open>None\<close> when the
  rounded value does not fit (\<open>2^1024\<close> or more).
\<close>

fun bit_length :: "nat \<Rightarrow> nat" where
  "bit_length n = (if n = 0 then 0 else Suc (bit_length (n div 2)))"

declare bit_length.simps [simp del]

definition ilog2 :: "rat \<Rightarrow> int" where
  "ilog2 a =
     (let (n, d) = quotient_of a;
          k = int (bit_length (nat n)) - int (bit_length (nat d))
      in if 2 powi k \<le> a then k else k - 1)"

definition round_half_even :: "rat \<Rightarrow> int" where
  "round_half_even x =
     (let f = \<lfloor>x\<rfloor>; d = x - of_int f
      in if d < 1 / 2 then f
         else if 1 / 2 < d then f + 1
         else if even f then f else f + 1)"

definition double_round :: "rat \<Rightarrow> rat option" where
  "double_round a =
     (if a = 0 then Some 0
      else let e = ilog2 a;
               p = max e (- 1022) - 52;
               m = round_half_even (a / 2 powi p);
               r = of_int m * 2 powi p
           in if 2 powi 1024 \<le> r then None else Some r)"

definition float_of_rat :: "bool \<Rightarrow> rat \<Rightarrow> pyfloat" where
  \<comment> \<open>the double nearest to a signed magnitude; overflow gives an infinity, as
      \<open>float('1e400')\<close> does\<close>
  "float_of_rat neg a =
     (case double_round a of
        None \<Rightarrow> (if neg then NegInf else PosInf)
      | Some r \<Rightarrow>
          if r = 0 then (if neg then NegZero else Finite 0)
          else Finite (if neg then - r else r))"

section \<open>The regular expressions of \<open>extract_first_json\<close>\<close>

text \<open>\<open>\s\<close> in a \<open>str\<close> pattern: the Unicode whitespace code points.\<close>

definition is_space :: "nat \<Rightarrow> bool" where
  "is_space c \<longleftrightarrow>
     (9 \<le> c \<and> c \<le> 13) \<or> (28 \<le> c \<and> c \<le> 32) \<or> c = 0x85 \<or> c = 0xA0 \<or> c = 0x1680
     \<or> (0x2000 \<le> c \<and> c \<le> 0x200A) \<or> c = 0x2028 \<or> c = 0x2029 \<or> c = 0x202F
     \<or> c = 0x205F \<or> c = 0x3000"

text \<open>
  \<open>re.search(r"(\{[\s\S]*\})", text)\<close>: the leftmost match starts at the first \<open>{\<close>;
  \<open>[\s\S]*\<close> is greedy, so the match ends at the last \<open>}\<close> after it. When no \<open>}\<close>
  follows the first \<open>{\<close>, none follows a later \<open>{\<close> either and there is no match.
\<close>

definition search_object :: "pystr \<Rightarrow> pystr option" where
  "search_object text =
     (case dropWhile (\<lambda>c. c \<noteq> ch CHR ''{'') text of
        [] \<Rightarrow> None
      | b # r \<Rightarrow>
          if ch CHR ''}'' \<in> set r
          then Some (b # rev (dropWhile (\<lambda>c. c \<noteq> ch CHR ''}'') (rev r)))
          else None)"

text \<open>
  \<open>re.sub(r",\s*}", "}", s)\<close> and \<open>re.sub(r",\s*]", "]", s)\<close>: scanning from the left,
  a comma followed by whitespace and then the closing character is replaced by the closing
  character alone, and the scan goes on after the match.
\<close>

lemma dropWhile_Cons_shorter: "dropWhile P s = d # t \<Longrightarrow> length t < length s"
proof -
  assume "dropWhile P s = d # t"
  then have "length (d # t) \<le> length s"
    by (metis length_dropWhile_le)
  then show ?thesis by simp
qed

function sub_trailing_comma :: "nat \<Rightarrow> pystr \<Rightarrow> pystr" where
  "sub_trailing_comma closer [] = []"
| "sub_trailing_comma closer (c # s) =
     (if c = ch CHR '','' then
        (case dropWhile is_space s of
           [] \<Rightarrow> c # sub_trailing_comma closer s
         | d # t \<Rightarrow>
             if d = closer then closer # sub_trailing_comma closer t
             else c # sub_trailing_comma closer s)
      else c # sub_trailing_comma closer s)"
  by pat_completeness auto
termination
  by (relation "measure (\<lambda>(closer, s). length s)") (auto dest: dropWhile_Cons_shorter)

section \<open>The JSON decoder\<close>

text \<open>
  \<open>json.loads\<close> with its default arguments, after \<open>json/decoder.py\<close> and
  \<open>json/scanner.py\<close>. The library scans with an index into the text; the model passes the
  text that remains after the index. \<open>None\<close> is a \<open>JSONDecodeError\<close>. Integers are
  unbounded and nesting is not limited by the interpreter's stack.
\<close>

definition is_json_ws :: "nat \<Rightarrow> bool" where
  \<comment> \<open>\<open>WHITESPACE_STR = ' \t\n\r'\<close>\<close>
  "is_json_ws c \<longleftrightarrow> c = 32 \<or> c = 9 \<or> c = 10 \<or> c = 13"

definition skip_ws :: "pystr \<Rightarrow> pystr" where
  "skip_ws s = dropWhile is_json_ws s"

definition is_digit :: "nat \<Rightarrow> bool" where
  "is_digit c \<longleftrightarrow> 48 \<le> c \<and> c \<le> 57"

definition hexval :: "nat \<Rightarrow> nat option" where
  "hexval c =
     (if 48 \<le> c \<and> c \<le> 57 then Some (c - 48)
      else if 97 \<le> c \<and> c \<le> 102 then Some (c - 87)
      else if 65 \<le> c \<and> c \<le> 70 then Some (c - 55)
      else None)"

definition decode_uXXXX :: "pystr \<Rightarrow> nat option" where
  \<comment> \<open>the four hexadecimal digits after \<open>\u\<close>\<close>
  "decode_uXXXX s =
     (case s of
        a # b # c # d # _ \<Rightarrow>
          (case (hexval a, hexval b, hexval c, hexval d) of
             (Some x, Some y, Some z, Some w) \<Rightarrow> Some (((x * 16 + y) * 16 + z) * 16 + w)
           | _ \<Rightarrow> None)
      | _ \<Rightarrow> None)"

definition BACKSLASH :: "nat \<Rightarrow> nat option" where
  "BACKSLASH esc =
     (if esc = ch CHR 0x22 then Some (ch CHR 0x22)
      else if esc = ch CHR 0x5C then Some (ch CHR 0x5C)
      else if esc = ch CHR ''/'' then Some (ch CHR ''/'')
      else if esc = ch CHR ''b'' then Some 8
      else if esc = ch CHR ''f'' then Some 12
      else if esc = ch CHR ''n'' then Some 10
      else if esc = ch CHR ''r'' then Some 13
      else if esc = ch CHR ''t'' then Some 9
      else None)"

definition is_terminator :: "nat \<Rightarrow> bool" where
  \<comment> \<open>\<open>STRINGCHUNK\<close> stops at a quote, a backslash or a control character\<close>
  "is_terminator c \<longleftrightarrow> c = ch CHR 0x22 \<or> c = ch CHR 0x5C \<or> c < 32"

text \<open>\<open>scanstring\<close>, strict: the text after the opening quote gives the decoded string and
  the text after the closing quote.\<close>

function scanstring_loop :: "pystr \<Rightarrow> pystr \<Rightarrow> (pystr \<times> pystr) option" where
  "scanstring_loop chunks s =
     (let acc = chunks @ takeWhile (\<lambda>c. \<not> is_terminator c) s
      in case dropWhile (\<lambda>c. \<not> is_terminator c) s of
           [] \<Rightarrow> None
         | t # r \<Rightarrow>
             if t = ch CHR 0x22 then Some (acc, r)
             else if t \<noteq> ch CHR 0x5C then None
             else
               (case r of
                  [] \<Rightarrow> None
                | esc # r1 \<Rightarrow>
                    if esc \<noteq> ch CHR ''u'' then
                      (case BACKSLASH esc of
                         None \<Rightarrow> None
                       | Some c \<Rightarrow> scanstring_loop (acc @ [c]) r1)
                    else
                      (case decode_uXXXX r1 of
                         None \<Rightarrow> None
                       | Some uni \<Rightarrow>
                           let r2 = drop 4 r1 in
                           if 0xD800 \<le> uni \<and> uni \<le> 0xDBFF \<and> take 2 r2 = [ch CHR 0x5C, ch CHR ''u'']
                           then
                             (case decode_uXXXX (drop 2 r2) of
                                None \<Rightarrow> None
                              | Some uni2 \<Rightarrow>
                                  if 0xDC00 \<le> uni2 \<and> uni2 \<le> 0xDFFF
                                  then scanstring_loop
                                         (acc @ [0x10000 + (uni - 0xD800) * 1024 + (uni2 - 0xDC00)])
                                         (drop 6 r2)
                                  else scanstring_loop (acc @ [uni]) r2)
                           else scanstring_loop (acc @ [uni]) r2)))"
  by pat_completeness auto
termination
  by (relation "measure (\<lambda>(chunks, s). length s)") (auto dest: dropWhile_Cons_shorter)

definition scanstring :: "pystr \<Rightarrow> (pystr \<times> pystr) option" where
  "scanstring s = scanstring_loop [] s"

subsection \<open>Numbers\<close>

text \<open>
  \<open>NUMBER_RE = (-?(?:0|[1-9]\d*))(\.\d+)?([eE][-+]?\d+)?\<close>, matched at the start of the
  text: the integer part, the optional fraction, the optional exponent and what remains.
\<close>

definition match_integer :: "pystr \<Rightarrow> (pystr \<times> pystr) option" where
  "match_integer s =
     (let (sign, s1) = (case s of
                          [] \<Rightarrow> ([], s)
                        | c # r \<Rightarrow> if c = ch CHR ''-'' then ([c], r) else ([], s))
      in case s1 of
           [] \<Rightarrow> None
         | d # r \<Rightarrow>
             if d = ch CHR ''0'' then Some (sign @ [d], r)
             else if is_digit d
             then Some (sign @ d # takeWhile is_digit r, dropWhile is_digit r)
             else None)"

definition match_frac :: "pystr \<Rightarrow> pystr \<times> pystr" where
  "match_frac s =
     (case s of
        [] \<Rightarrow> ([], s)
      | c # r \<Rightarrow>
          if c = ch CHR ''.'' \<and> takeWhile is_digit r \<noteq> []
          then (c # takeWhile is_digit r, dropWhile is_digit r)
          else ([], s))"

definition match_exp :: "pystr \<Rightarrow> pystr \<times> pystr" where
  "match_exp s =
     (case s of
        [] \<Rightarrow> ([], s)
      | c # r \<Rightarrow>
          if c = ch CHR ''e'' \<or> c = ch CHR ''E'' then
            (let (sign, r1) = (case r of
                                 [] \<Rightarrow> ([], r)
                               | g # t \<Rightarrow>
                                   if g = ch CHR ''-'' \<or> g = ch CHR ''+'' then ([g], t)
                                   else ([], r))
             in if takeWhile is_digit r1 \<noteq> []
                then (c # sign @ takeWhile is_digit r1, dropWhile is_digit r1)
                else ([], s))
          else ([], s))"

definition match_number :: "pystr \<Rightarrow> ((pystr \<times> pystr \<times> pystr) \<times> pystr) option" where
  "match_number s =
     (case match_integer s of
        None \<Rightarrow> None
      | Some (integer, r) \<Rightarrow>
          (let (fpart, r1) = match_frac r; (epart, r2) = match_exp r1
           in Some ((integer, fpart, epart), r2)))"

definition nat_of_digits :: "pystr \<Rightarrow> nat" where
  "nat_of_digits ds = foldl (\<lambda>a c. 10 * a + (c - 48)) 0 ds"

definition parse_int :: "pystr \<Rightarrow> int" where
  \<comment> \<open>\<open>int(integer)\<close> on the text of an integer part\<close>
  "parse_int s =
     (case s of
        [] \<Rightarrow> 0
      | c # r \<Rightarrow>
          if c = ch CHR ''-'' then - int (nat_of_digits r) else int (nat_of_digits s))"

definition parse_float :: "pystr \<Rightarrow> pystr \<Rightarrow> pystr \<Rightarrow> pyfloat" where
  \<comment> \<open>\<open>float(integer + frac + exp)\<close>: the double nearest to the decimal value\<close>
  "parse_float integer fpart epart =
     (let neg = (take 1 integer = [ch CHR ''-'']);
          idigits = (if neg then drop 1 integer else integer);
          fdigits = drop 1 fpart;
          e = (case drop 1 epart of
                 [] \<Rightarrow> 0
               | g # t \<Rightarrow>
                   if g = ch CHR ''-'' then - int (nat_of_digits t)
                   else if g = ch CHR ''+'' then int (nat_of_digits t)
                   else int (nat_of_digits (g # t)));
          m = of_nat (nat_of_digits (idigits @ fdigits)) * 10 powi (e - int (length fdigits))
      in float_of_rat neg m)"

subsection \<open>Objects, arrays and the scanner\<close>

text \<open>\<open>dict(pairs)\<close>: a later pair replaces the value of an equal earlier key, which
  keeps its place.\<close>

fun dict_set :: "(pystr \<times> json) list \<Rightarrow> pystr \<Rightarrow> json \<Rightarrow> (pystr \<times> json) list" where
  "dict_set [] k v = [(k, v)]"
| "dict_set ((k', v') # d) k v = (if k' = k then (k, v) # d else (k', v') # dict_set d k v)"

definition dict_of :: "(pystr \<times> json) list \<Rightarrow> (pystr \<times> json) list" where
  "dict_of pairs = foldl (\<lambda>d (k, v). dict_set d k v) [] pairs"

text \<open>
  \<open>_scan_once\<close>, and the loops of \<open>JSONObject\<close> and \<open>JSONArray\<close>. \<open>JSONObject_loop\<close>
  starts after the opening quote of a key, \<open>JSONArray_loop\<close> at a value. Each loop goes on
  with the text that the scanner left; the test that this text is shorter than the text
  scanned always succeeds (lemma \<open>scan_once_shorter\<close>) and is there for the termination
  proof only.
\<close>

lemma skip_ws_length: "length (skip_ws s) \<le> length s"
  by (simp add: skip_ws_def length_dropWhile_le)

lemma skip_ws_Cons_shorter: "skip_ws s = d # t \<Longrightarrow> length t < length s"
  unfolding skip_ws_def by (rule dropWhile_Cons_shorter)

function scan_once :: "pystr \<Rightarrow> (json \<times> pystr) option"
  and JSONObject_loop :: "(pystr \<times> json) list \<Rightarrow> pystr \<Rightarrow> (json \<times> pystr) option"
  and JSONArray_loop :: "json list \<Rightarrow> pystr \<Rightarrow> (json \<times> pystr) option"
where
  "scan_once s =
     (case s of
        [] \<Rightarrow> None
      | c # r \<Rightarrow>
          if c = ch CHR 0x22 then
            (case scanstring r of None \<Rightarrow> None | Some (str, e) \<Rightarrow> Some (JStr str, e))
          else if c = ch CHR ''{'' then
            (case skip_ws r of
               [] \<Rightarrow> None
             | d # t \<Rightarrow>
                 if d = ch CHR ''}'' then Some (JObj [], t)
                 else if d = ch CHR 0x22 then JSONObject_loop [] t
                 else None)
          else if c = ch CHR ''['' then
            (case skip_ws r of
               [] \<Rightarrow> None
             | d # t \<Rightarrow>
                 if d = ch CHR '']'' then Some (JArr [], t)
                 else JSONArray_loop [] (d # t))
          else if take 4 s = S ''null'' then Some (JNull, drop 4 s)
          else if take 4 s = S ''true'' then Some (JBool True, drop 4 s)
          else if take 5 s = S ''false'' then Some (JBool False, drop 5 s)
          else
            (case match_number s of
               Some ((integer, fpart, epart), e) \<Rightarrow>
                 if fpart \<noteq> [] \<or> epart \<noteq> []
                 then Some (JFloat (parse_float integer fpart epart), e)
                 else Some (JInt (parse_int integer), e)
             | None \<Rightarrow>
                 if take 3 s = S ''NaN'' then Some (JFloat NaN, drop 3 s)
                 else if take 8 s = S ''Infinity'' then Some (JFloat PosInf, drop 8 s)
                 else if take 9 s = S ''-Infinity'' then Some (JFloat NegInf, drop 9 s)
                 else None))"
| "JSONObject_loop pairs s =
     (case scanstring s of
        None \<Rightarrow> None
      | Some (key, s1) \<Rightarrow>
          (case skip_ws s1 of
             [] \<Rightarrow> None
           | c # s2 \<Rightarrow>
               if c \<noteq> ch CHR '':'' \<or> length s \<le> length s2 then None
               else
                 (case scan_once (skip_ws s2) of
                    None \<Rightarrow> None
                  | Some (v, s3) \<Rightarrow>
                      if length (skip_ws s2) \<le> length s3 then None
                      else
                        (case skip_ws s3 of
                           [] \<Rightarrow> None
                         | d # s4 \<Rightarrow>
                             if d = ch CHR ''}'' then Some (JObj (dict_of (pairs @ [(key, v)])), s4)
                             else if d \<noteq> ch CHR '','' then None
                             else
                               (case skip_ws s4 of
                                  [] \<Rightarrow> None
                                | q # s5 \<Rightarrow>
                                    if q \<noteq> ch CHR 0x22 then None
                                    else JSONObject_loop (pairs @ [(key, v)]) s5)))))"
| "JSONArray_loop values s =
     (case scan_once s of
        None \<Rightarrow> None
      | Some (v, s1) \<Rightarrow>
          if length s \<le> length s1 then None
          else
            (case skip_ws s1 of
               [] \<Rightarrow> None
             | d # s2 \<Rightarrow>
                 if d = ch CHR '']'' then Some (JArr (values @ [v]), s2)
                 else if d \<noteq> ch CHR '','' then None
                 else JSONArray_loop (values @ [v]) (skip_ws s2)))"
  by pat_completeness auto

termination
proof (relation "measure (\<lambda>x. case x of
                      Inl s \<Rightarrow> 2 * length s
                    | Inr (Inl (pairs, s)) \<Rightarrow> 2 * length s + 1
                    | Inr (Inr (values, s)) \<Rightarrow> 2 * length s + 1)", goal_cases)
  case 1
  show ?case by simp
next
  case (2 s c r d t)
  then show ?case using skip_ws_Cons_shorter [of r d t] by simp
next
  case (3 s c r d t)
  then show ?case using skip_ws_Cons_shorter [of r d t] by simp
next
  case (4 pairs s x key s1 c s2)
  then show ?case using skip_ws_length [of s2] by simp
next
  case (5 pairs s x key s1 c s2 y v s3 d s4 q s5)
  then show ?case
    using skip_ws_Cons_shorter [of s3 d s4] skip_ws_Cons_shorter [of s4 q s5]
          skip_ws_length [of s2]
    by simp
next
  case (6 vs s)
  show ?case by simp
next
  case (7 vs s x v s1 d s2)
  then show ?case
    using skip_ws_Cons_shorter [of s1 d s2] skip_ws_length [of s2] by simp
qed

declare scan_once.simps [simp del] JSONObject_loop.simps [simp del] JSONArray_loop.simps [simp del]
declare scanstring_loop.simps [simp del] sub_trailing_comma.simps [simp del]

definition json_loads :: "pystr \<Rightarrow> json option" where
  \<comment> \<open>\<open>json.loads(s)\<close> for a \<open>str\<close>: a leading byte-order mark is refused, then
      \<open>JSONDecoder.decode\<close>\<close>
  "json_loads s =
     (if take 1 s = [0xFEFF] then None
      else
        (case scan_once (skip_ws s) of
           None \<Rightarrow> None
         | Some (obj, e) \<Rightarrow> if skip_ws e = [] then Some obj else None))"

section \<open>\<open>extract_first_json\<close>\<close>

definition extract_first_json :: "pystr \<Rightarrow> py_error + json" where
  "extract_first_json text =
     (case search_object text of
        None \<Rightarrow> Inl (ValueError (S ''No JSON object found in model response''))
      | Some candidate \<Rightarrow>
          (case json_loads candidate of
             Some obj \<Rightarrow> Inr obj
           | None \<Rightarrow>
               (let cleaned = sub_trailing_comma (ch CHR ''}'') candidate;
                    cleaned = sub_trailing_comma (ch CHR '']'') cleaned
                in case json_loads cleaned of
                     Some obj \<Rightarrow> Inr obj
                   | None \<Rightarrow> Inl JSONDecodeError)))"

section \<open>The handler \<open>analyze_image\<close>\<close>

subsection \<open>What lies outside \<open>app.py\<close>\<close>

text \<open>
  The handler calls code that is not part of the repository; it is a parameter of the model:
  \<^item> \<open>int_of_str\<close>, \<open>float_of_str\<close>: the builtins \<open>int(s)\<close> and \<open>float(s)\<close> on a \<open>str\<close>
    (\<open>None\<close> is a \<open>ValueError\<close>);
  \<^item> \<open>lower_unicode\<close>: \<open>str.lower()\<close> on a string with a non-ASCII character (the Unicode
    case tables);
  \<^item> \<open>coerce_str\<close>: what the \<open>pydantic\<close> model does with a value that is neither a \<open>str\<close>
    nor \<open>None\<close> in a field declared \<open>Optional[str]\<close> (\<open>None\<close> is a validation error);
  \<^item> \<open>part_from_bytes\<close>: whether \<open>types.Part.from_bytes(data, mime_type)\<close> returns;
  \<^item> \<open>generate_content\<close>: the call of the vision model on the fixed prompt and the image
    part: \<open>None\<close> when it raises, otherwise \<open>response.text\<close>, which may be \<open>None\<close>.
\<close>

record runtime =
  int_of_str :: "pystr \<Rightarrow> int option"
  float_of_str :: "pystr \<Rightarrow> pyfloat option"
  lower_unicode :: "pystr \<Rightarrow> pystr"
  coerce_str :: "json \<Rightarrow> pystr option"
  part_from_bytes :: "bytes \<Rightarrow> pystr \<Rightarrow> bool"
  generate_content :: "bytes \<Rightarrow> pystr \<Rightarrow> pystr option option"

subsection \<open>Builtins\<close>

fun py_int :: "runtime \<Rightarrow> json \<Rightarrow> py_error + int" where
  \<comment> \<open>\<open>int(x)\<close>: a float is truncated towards zero\<close>
  "py_int rt (JInt i) = Inr i"
| "py_int rt (JBool b) = Inr (if b then 1 else 0)"
| "py_int rt (JFloat (Finite q)) = Inr (if 0 \<le> q then \<lfloor>q\<rfloor> else \<lceil>q\<rceil>)"
| "py_int rt (JFloat NegZero) = Inr 0"
| "py_int rt (JFloat NaN) = Inl (ValueError [])"
| "py_int rt (JFloat PosInf) = Inl OverflowError"
| "py_int rt (JFloat NegInf) = Inl OverflowError"
| "py_int rt (JStr s) = (case int_of_str rt s of None \<Rightarrow> Inl (ValueError []) | Some i \<Rightarrow> Inr i)"
| "py_int rt JNull = Inl TypeError"
| "py_int rt (JArr xs) = Inl TypeError"
| "py_int rt (JObj d) = Inl TypeError"

fun py_float :: "runtime \<Rightarrow> json \<Rightarrow> py_error + pyfloat" where
  \<comment> \<open>\<open>float(x)\<close>: an \<open>int\<close> too large for a double raises \<open>OverflowError\<close>\<close>
  "py_float rt (JFloat f) = Inr f"
| "py_float rt (JInt i) =
     (case double_round (of_int \<bar>i\<bar>) of
        None \<Rightarrow> Inl OverflowError
      | Some r \<Rightarrow> Inr (Finite (if i < 0 then - r else r)))"
| "py_float rt (JBool b) = Inr (Finite (if b then 1 else 0))"
| "py_float rt (JStr s) = (case float_of_str rt s of None \<Rightarrow> Inl (ValueError []) | Some f \<Rightarrow> Inr f)"
| "py_float rt JNull = Inl TypeError"
| "py_float rt (JArr xs) = Inl TypeError"
| "py_float rt (JObj d) = Inl TypeError"

fun py_bool :: "json \<Rightarrow> bool" where
  \<comment> \<open>\<open>bool(x)\<close>, the truth value of \<open>x\<close>\<close>
  "py_bool JNull = False"
| "py_bool (JBool b) = b"
| "py_bool (JInt i) = (i \<noteq> 0)"
| "py_bool (JFloat f) = (f \<noteq> Finite 0 \<and> f \<noteq> NegZero)"
| "py_bool (JStr s) = (s \<noteq> [])"
| "py_bool (JArr xs) = (xs \<noteq> [])"
| "py_bool (JObj d) = (d \<noteq> [])"

definition py_lower :: "runtime \<Rightarrow> pystr \<Rightarrow> pystr" where
  \<comment> \<open>\<open>s.lower()\<close>: on an ASCII string, \<open>A\<close>..\<open>Z\<close> become \<open>a\<close>..\<open>z\<close>\<close>
  "py_lower rt s =
     (if list_all (\<lambda>c. c < 128) s
      then map (\<lambda>c. if 65 \<le> c \<and> c \<le> 90 then c + 32 else c) s
      else lower_unicode rt s)"

fun digits_of_nat :: "nat \<Rightarrow> pystr" where
  "digits_of_nat n = (if n < 10 then [48 + n] else digits_of_nat (n div 10) @ [48 + n mod 10])"

declare digits_of_nat.simps [simp del]

definition dict_get :: "(pystr \<times> json) list \<Rightarrow> pystr \<Rightarrow> json \<Rightarrow> json" where
  \<comment> \<open>\<open>d.get(key, default)\<close>\<close>
  "dict_get d key dflt = (case map_of d key of None \<Rightarrow> dflt | Some v \<Rightarrow> v)"

subsection \<open>Step 5: normalization\<close>

record CrowdResult =
  people_count :: "int option"
  crowd_score :: "int option"
  crowd_label :: "pystr option"
  confidence :: "pyfloat option"
  rationale :: "pystr option"
  screen_detected :: "bool option"
  departure_type :: "pystr option"
  departure_info :: "(pystr \<times> json) list list"

definition valid_types :: "pystr list" where
  "valid_types = [S ''flight'', S ''train'', S ''bus'', S ''subway'', S ''ferry'', S ''none'']"

definition norm_people_count :: "runtime \<Rightarrow> json \<Rightarrow> py_error + int option" where
  "norm_people_count rt v =
     (if v \<noteq> JNull then (case py_int rt v of Inl e \<Rightarrow> Inl e | Inr n \<Rightarrow> Inr (Some n))
      else Inr None)"

definition norm_crowd_score :: "runtime \<Rightarrow> json \<Rightarrow> py_error + int option" where
  "norm_crowd_score rt v =
     (if v \<noteq> JNull then
        (case py_int rt v of Inl e \<Rightarrow> Inl e | Inr n \<Rightarrow> Inr (Some (max 1 (min 10 n))))
      else Inr None)"

definition norm_confidence :: "runtime \<Rightarrow> json \<Rightarrow> py_error + pyfloat option" where
  "norm_confidence rt v =
     (if v \<noteq> JNull then (case py_float rt v of Inl e \<Rightarrow> Inl e | Inr f \<Rightarrow> Inr (Some f))
      else Inr None)"

definition norm_screen_detected :: "json \<Rightarrow> bool option" where
  "norm_screen_detected v = (if v \<noteq> JNull then Some (py_bool v) else None)"

definition is_nonempty_str :: "json \<Rightarrow> bool" where
  \<comment> \<open>\<open>departure_type and isinstance(departure_type, str)\<close>\<close>
  "is_nonempty_str v = (case v of JStr s \<Rightarrow> s \<noteq> [] | _ \<Rightarrow> False)"

definition norm_departure_type :: "runtime \<Rightarrow> json \<Rightarrow> bool option \<Rightarrow> pystr option" where
  "norm_departure_type rt v screen =
     (case v of
        JStr s \<Rightarrow>
          if s \<noteq> [] then
            (let t = py_lower rt s
             in if t \<in> set valid_types then Some t else Some (S ''none''))
          else (if screen = Some True then None else Some (S ''none''))
      | _ \<Rightarrow> (if screen = Some True then None else Some (S ''none'')))"

definition norm_departure_info :: "json \<Rightarrow> (pystr \<times> json) list list" where
  "norm_departure_info v =
     (case v of
        JArr entries \<Rightarrow> concat (map (\<lambda>entry. case entry of JObj d \<Rightarrow> [d] | _ \<Rightarrow> []) entries)
      | _ \<Rightarrow> [])"

definition validate_optional_str :: "runtime \<Rightarrow> json \<Rightarrow> py_error + pystr option" where
  \<comment> \<open>the \<open>Optional[str]\<close> fields of \<open>CrowdResult\<close>; the other fields receive values of
      their declared types, which the model class keeps as they are\<close>
  "validate_optional_str rt v =
     (case v of
        JNull \<Rightarrow> Inr None
      | JStr s \<Rightarrow> Inr (Some s)
      | _ \<Rightarrow> (case coerce_str rt v of None \<Rightarrow> Inl ValidationError | Some s \<Rightarrow> Inr (Some s)))"

definition normalize :: "runtime \<Rightarrow> json \<Rightarrow> py_error + CrowdResult" where
  "normalize rt parsed =
     (case parsed of
        JObj d \<Rightarrow>
          (case norm_people_count rt (dict_get d (S ''people_count'') JNull) of
             Inl e \<Rightarrow> Inl e
           | Inr pc \<Rightarrow>
          (case norm_crowd_score rt (dict_get d (S ''crowd_score'') JNull) of
             Inl e \<Rightarrow> Inl e
           | Inr cs \<Rightarrow>
          (case norm_confidence rt (dict_get d (S ''confidence'') JNull) of
             Inl e \<Rightarrow> Inl e
           | Inr cf \<Rightarrow>
          (let sd = norm_screen_detected (dict_get d (S ''screen_detected'') JNull);
               dt = norm_departure_type rt (dict_get d (S ''departure_type'') JNull) sd;
               di = norm_departure_info (dict_get d (S ''departure_info'') JNull)
           in case validate_optional_str rt (dict_get d (S ''crowd_label'') JNull) of
                Inl e \<Rightarrow> Inl e
              | Inr cl \<Rightarrow>
             (case validate_optional_str rt (dict_get d (S ''rationale'') (JStr [])) of
                Inl e \<Rightarrow> Inl e
              | Inr ra \<Rightarrow>
                  Inr \<lparr>people_count = pc, crowd_score = cs, crowd_label = cl,
                       confidence = cf, rationale = ra, screen_detected = sd,
                       departure_type = dt, departure_info = di\<rparr>)))))
      | _ \<Rightarrow> Inl AttributeError)"

subsection \<open>The response\<close>

text \<open>
  The handler ends with \<open>JSONResponse(status_code=200, content=result.dict())\<close>, outside
  every \<open>try\<close>. The response class renders its content at once, with
  \<open>json.dumps(content, ensure_ascii=False, allow_nan=False, ...).encode("utf-8")\<close>:
  \<open>json.dumps\<close> raises \<open>ValueError\<close> on a float that is NaN or an infinity, and the
  encoding raises \<open>UnicodeEncodeError\<close> on a string with a surrogate code point. Such an
  exception is not handled by \<open>analyze_image\<close>; the framework answers with status 500.
\<close>

definition result_dict :: "CrowdResult \<Rightarrow> json" where
  \<comment> \<open>\<open>result.dict()\<close>\<close>
  "result_dict r =
     JObj
      [(S ''people_count'', case people_count r of None \<Rightarrow> JNull | Some n \<Rightarrow> JInt n),
       (S ''crowd_score'', case crowd_score r of None \<Rightarrow> JNull | Some n \<Rightarrow> JInt n),
       (S ''crowd_label'', case crowd_label r of None \<Rightarrow> JNull | Some t \<Rightarrow> JStr t),
       (S ''confidence'', case confidence r of None \<Rightarrow> JNull | Some f \<Rightarrow> JFloat f),
       (S ''rationale'', case rationale r of None \<Rightarrow> JNull | Some t \<Rightarrow> JStr t),
       (S ''screen_detected'', case screen_detected r of None \<Rightarrow> JNull | Some b \<Rightarrow> JBool b),
       (S ''departure_type'', case departure_type r of None \<Rightarrow> JNull | Some t \<Rightarrow> JStr t),
       (S ''departure_info'', JArr (map JObj (departure_info r)))]"

definition is_finite :: "pyfloat \<Rightarrow> bool" where
  "is_finite f = (case f of Finite q \<Rightarrow> True | NegZero \<Rightarrow> True | _ \<Rightarrow> False)"

definition encodable :: "pystr \<Rightarrow> bool" where
  \<comment> \<open>\<open>s.encode("utf-8")\<close> succeeds: no code point from \<open>U+D800\<close> to \<open>U+DFFF\<close>\<close>
  "encodable s = list_all (\<lambda>c. c < 0xD800 \<or> 0xDFFF < c) s"

fun floats_finite :: "json \<Rightarrow> bool" where
  "floats_finite (JFloat f) = is_finite f"
| "floats_finite (JArr xs) = list_all floats_finite xs"
| "floats_finite (JObj d) = list_all (\<lambda>kv. floats_finite (snd kv)) d"
| "floats_finite v = True"

fun strings_encodable :: "json \<Rightarrow> bool" where
  "strings_encodable (JStr s) = encodable s"
| "strings_encodable (JArr xs) = list_all strings_encodable xs"
| "strings_encodable (JObj d) =
     list_all (\<lambda>kv. encodable (fst kv) \<and> strings_encodable (snd kv)) d"
| "strings_encodable v = True"

definition render :: "json \<Rightarrow> py_error option" where
  \<comment> \<open>the exception that rendering the content raises, if any\<close>
  "render content =
     (if \<not> floats_finite content then Some (ValueError [])
      else if \<not> strings_encodable content then Some UnicodeEncodeError
      else None)"

subsection \<open>The request\<close>

record UploadFile =
  contents :: bytes
  content_type :: "pystr option"

text \<open>How a request fails: with an \<open>HTTPException\<close> that the handler raises, or with an
  exception that it does not handle, which the framework turns into status 500.\<close>

datatype http_error = HTTPException nat pystr | Unhandled py_error

fun status_code :: "http_error \<Rightarrow> nat" where
  "status_code (HTTPException code detail) = code"
| "status_code (Unhandled e) = 500"

definition MAX_UPLOAD_BYTES :: nat where
  "MAX_UPLOAD_BYTES = 5 * 1024 * 1024"

definition invoke_model :: "runtime \<Rightarrow> UploadFile \<Rightarrow> http_error + pystr" where
  \<comment> \<open>steps 2 and 3: the image part, then the call of the model; the result is \<open>raw_text\<close>\<close>
  "invoke_model rt file =
     (let mime_type = (case content_type file of
                         None \<Rightarrow> S ''image/jpeg''
                       | Some t \<Rightarrow> if t = [] then S ''image/jpeg'' else t)
      in if \<not> part_from_bytes rt (contents file) mime_type
         then Inl (HTTPException 500 (S ''Failed to prepare image for analysis''))
         else
           (case generate_content rt (contents file) mime_type of
              None \<Rightarrow> Inl (HTTPException 502 (S ''Vision model request failed''))
            | Some None \<Rightarrow> Inr []
            | Some (Some text) \<Rightarrow> Inr text))"

definition respond :: "runtime \<Rightarrow> pystr \<Rightarrow> http_error + CrowdResult" where
  \<comment> \<open>steps 4 and 5, then the response: \<open>Inr result\<close> is the 200 response whose content is
      \<open>result.dict()\<close>\<close>
  "respond rt raw_text =
     (case extract_first_json raw_text of
        Inl e \<Rightarrow> Inl (HTTPException 502 (S ''Model returned unexpected output format''))
      | Inr parsed \<Rightarrow>
          (case normalize rt parsed of
             Inl e \<Rightarrow> Inl (HTTPException 500 (S ''Failed to normalize model response''))
           | Inr result \<Rightarrow>
               (case render (result_dict result) of
                  Some e \<Rightarrow> Inl (Unhandled e)
                | None \<Rightarrow> Inr result)))"

definition analyze_image :: "runtime \<Rightarrow> UploadFile \<Rightarrow> http_error + CrowdResult" where
  "analyze_image rt file =
     (if contents file = [] then Inl (HTTPException 400 (S ''Empty file''))
      else if MAX_UPLOAD_BYTES < length (contents file)
      then Inl (HTTPException 413
                  (S ''File too large. Max '' @ digits_of_nat MAX_UPLOAD_BYTES
                   @ S '' bytes allowed.''))
      else
        (case invoke_model rt file of
           Inl e \<Rightarrow> Inl e
         | Inr raw_text \<Rightarrow> respond rt raw_text))"

section \<open>The scanner consumes input\<close>

text \<open>
  Every successful call of the scanner returns a text strictly shorter than the one it was
  given, so the length tests in \<open>JSONObject_loop\<close> and \<open>JSONArray_loop\<close> never fail.
\<close>

lemma scanstring_loop_shorter:
  "scanstring_loop chunks s = Some (str, r) \<Longrightarrow> length r < length s"
proof (induction chunks s arbitrary: str r rule: scanstring_loop.induct)
  case (1 chunks s)
  show ?case
  proof (cases "dropWhile (\<lambda>c. \<not> is_terminator c) s")
    case Nil
    show ?thesis
      using "1.prems" unfolding scanstring_loop.simps [of chunks s] Nil by simp
  next
    case (Cons t rest)
    have rest: "length rest < length s"
      using Cons by (rule dropWhile_Cons_shorter)
    show ?thesis
    proof (cases rest)
      case Nil
      show ?thesis
        using "1.prems" rest unfolding scanstring_loop.simps [of chunks s] Cons Nil
        by (simp add: Let_def split: if_splits)
    next
      case (Cons esc r1)
      note IH = "1.IH" [OF refl \<open>dropWhile (\<lambda>c. \<not> is_terminator c) s = t # rest\<close> _ _ Cons]
      show ?thesis
        using "1.prems" rest IH
        unfolding scanstring_loop.simps [of chunks s]
          \<open>dropWhile (\<lambda>c. \<not> is_terminator c) s = t # rest\<close> Cons
        by (fastforce simp: Let_def split: if_splits option.splits)
    qed
  qed
qed

lemma match_frac_length: "length (snd (match_frac s)) \<le> length s"
  by (cases s) (auto simp: match_frac_def length_dropWhile_le le_SucI)

lemma match_exp_length: "length (snd (match_exp s)) \<le> length s"
proof (cases s)
  case Nil
  then show ?thesis by (simp add: match_exp_def)
next
  case (Cons c r)
  have a: "length (dropWhile is_digit r) \<le> length r"
    by (rule length_dropWhile_le)
  have b: "\<And>g t. r = g # t \<Longrightarrow> length (dropWhile is_digit t) \<le> length r"
    using length_dropWhile_le [of is_digit] by (simp add: le_SucI)
  show ?thesis
    using Cons a b
    by (auto simp: match_exp_def Let_def le_SucI split: list.splits)
qed

lemma match_integer_shorter:
  "match_integer s = Some (i, r) \<Longrightarrow> length r < length s"
proof -
  assume a: "match_integer s = Some (i, r)"
  have d: "\<And>x. length (dropWhile is_digit x) \<le> length x"
    by (rule length_dropWhile_le)
  show ?thesis
    using a d
    by (auto simp: match_integer_def Let_def less_Suc_eq_le le_SucI
             split: list.splits if_splits)
qed

lemma match_number_shorter:
  "match_number s = Some (p, r) \<Longrightarrow> length r < length s"
proof -
  assume a: "match_number s = Some (p, r)"
  then obtain i r0 where i: "match_integer s = Some (i, r0)"
    by (auto simp: match_number_def split: option.splits)
  have r: "r = snd (match_exp (snd (match_frac r0)))"
    using a i by (auto simp: match_number_def Let_def split: prod.splits)
  have "length r \<le> length r0"
    unfolding r using match_exp_length match_frac_length by (meson le_trans)
  then show ?thesis
    using match_integer_shorter [OF i] by simp
qed

lemma drop_literal_shorter:
  "take n s = lit \<Longrightarrow> lit \<noteq> [] \<Longrightarrow> length (drop n s) < length s"
  by (cases s; cases n) auto

lemma scan_once_shorter:
  shows "scan_once s = Some (v, r) \<Longrightarrow> length r < length s"
    and "JSONObject_loop pairs s = Some (v, r) \<Longrightarrow> length r < length s"
    and "JSONArray_loop vals s = Some (v, r) \<Longrightarrow> length r < length s"
proof (induction s and pairs s and vals s arbitrary: v r and v r and v r
       rule: scan_once_JSONObject_loop_JSONArray_loop.induct)
  case (1 s)
  show ?case
  proof (cases s)
    case Nil
    then show ?thesis
      using "1.prems" by (simp add: scan_once.simps [of "[]"])
  next
    case (Cons c r')
    have "scan_once (c # r') = Some (v, r)"
      using "1.prems" Cons by simp
    note p = this [unfolded scan_once.simps [of "c # r'"]]
    consider (str) "c = ch CHR 0x22"
      | (obj) "c \<noteq> ch CHR 0x22" "c = ch CHR ''{''"
      | (arr) "c \<noteq> ch CHR 0x22" "c \<noteq> ch CHR ''{''" "c = ch CHR ''[''"
      | (other) "c \<noteq> ch CHR 0x22" "c \<noteq> ch CHR ''{''" "c \<noteq> ch CHR ''[''"
      by blast
    then show ?thesis
    proof cases
      case str
      then obtain x where "scanstring_loop [] r' = Some (x, r)"
        using p str
        by (auto simp: scanstring_def split: option.splits)
      then have "length r < length r'"
        by (rule scanstring_loop_shorter)
      then show ?thesis using Cons by simp
    next
      case obj
      show ?thesis
      proof (cases "skip_ws r'")
        case Nil
        then show ?thesis
          using p obj by simp
      next
        case sk: (Cons d t)
        have t: "length t < length r'"
          using sk by (rule skip_ws_Cons_shorter)
        show ?thesis
        proof (cases "d = ch CHR ''}''")
          case True
          then have "r = t"
            using p obj sk by simp
          then show ?thesis using t Cons by simp
        next
          case False
          then have dq: "d = ch CHR 0x22" and loop: "JSONObject_loop [] t = Some (v, r)"
            using p obj sk
            by (auto split: if_splits)
          have "length r < length t"
            using False dq obj by (intro "1.IH"(1) [OF Cons _ _ sk _ _ loop]) simp_all
          then show ?thesis using t Cons by simp
        qed
      qed
    next
      case arr
      show ?thesis
      proof (cases "skip_ws r'")
        case Nil
        then show ?thesis
          using p arr by simp
      next
        case sk: (Cons d t)
        have t: "length t < length r'"
          using sk by (rule skip_ws_Cons_shorter)
        show ?thesis
        proof (cases "d = ch CHR '']''")
          case True
          then have "r = t"
            using p arr sk by simp
          then show ?thesis using t Cons by simp
        next
          case False
          then have loop: "JSONArray_loop [] (d # t) = Some (v, r)"
            using p arr sk
            by (auto split: if_splits)
          have "length r < length (d # t)"
            using False arr by (intro "1.IH"(2) [OF Cons _ _ _ sk _ loop]) simp_all
          then show ?thesis using t Cons by simp
        qed
      qed
    next
      case other
      have lit: "\<And>n t. take n s = S t \<Longrightarrow> t \<noteq> [] \<Longrightarrow> length (drop n s) < length s"
        by (rule drop_literal_shorter) (auto simp: S_def)
      show ?thesis
        using p other lit [of 4 "''null''"] lit [of 4 "''true''"]
          lit [of 5 "''false''"] lit [of 3 "''NaN''"] lit [of 8 "''Infinity''"]
          lit [of 9 "''-Infinity''"]
        unfolding Cons
        by (auto split: if_splits option.splits prod.splits dest: match_number_shorter)
    qed
  qed
next
  case (2 pairs s)
  from "2.prems" obtain key s1 c s2 v' s3 d s4
    where ss: "scanstring s = Some (key, s1)"
      and s1: "skip_ws s1 = c # s2"
      and c: "\<not> (c \<noteq> ch CHR '':'' \<or> length s \<le> length s2)"
      and sc: "scan_once (skip_ws s2) = Some (v', s3)"
      and g: "\<not> length (skip_ws s2) \<le> length s3"
      and s3: "skip_ws s3 = d # s4"
    by (auto simp: JSONObject_loop.simps [of pairs s]
             split: list.splits if_splits option.splits prod.splits)
  have a: "length s4 < length s3"
    using s3 by (rule skip_ws_Cons_shorter)
  have b: "length s3 < length s"
    using g c skip_ws_length [of s2] by simp
  show ?case
  proof (cases "d = ch CHR ''}''")
    case True
    then have "r = s4"
      using "2.prems" ss s1 c sc g s3 by (simp add: JSONObject_loop.simps [of pairs s])
    then show ?thesis using a b by simp
  next
    case False
    then obtain q s5 where s4: "skip_ws s4 = q # s5" and q: "\<not> q \<noteq> ch CHR 0x22"
      and dc: "\<not> d \<noteq> ch CHR '',''"
      and loop: "JSONObject_loop (pairs @ [(key, v')]) s5 = Some (v, r)"
      using "2.prems" ss s1 c sc g s3
      by (auto simp: JSONObject_loop.simps [of pairs s] split: list.splits if_splits)
    have "length r < length s5"
      by (rule "2.IH"(2) [OF ss refl s1 c sc refl g s3 False dc s4 q loop])
    moreover have "length s5 < length s4"
      using s4 by (rule skip_ws_Cons_shorter)
    ultimately show ?thesis using a b by simp
  qed
next
  case (3 vals s)
  from "3.prems" obtain v' s1 d s2
    where sc: "scan_once s = Some (v', s1)"
      and g: "\<not> length s \<le> length s1"
      and s1: "skip_ws s1 = d # s2"
    by (auto simp: JSONArray_loop.simps [of vals s]
             split: list.splits if_splits option.splits prod.splits)
  have a: "length s2 < length s1"
    using s1 by (rule skip_ws_Cons_shorter)
  show ?case
  proof (cases "d = ch CHR '']''")
    case True
    then have "r = s2"
      using "3.prems" sc g s1 by (simp add: JSONArray_loop.simps [of vals s])
    then show ?thesis using a g by simp
  next
    case False
    then have dc: "\<not> d \<noteq> ch CHR '',''"
      and loop: "JSONArray_loop (vals @ [v']) (skip_ws s2) = Some (v, r)"
      using "3.prems" sc g s1
      by (auto simp: JSONArray_loop.simps [of vals s] split: if_splits)
    have "length r < length (skip_ws s2)"
      by (rule "3.IH"(2) [OF sc refl g s1 False dc loop])
    then show ?thesis
      using a g skip_ws_length [of s2] by simp
  qed
qed


section \<open>Properties of the normalization\<close>

text \<open>
  An environment for the closed examples: the model replies with a fixed text and the image
  part is always built; no string is read as a number and no value is coerced to a string.
\<close>

definition sample_runtime :: "pystr option option \<Rightarrow> runtime" where
  "sample_runtime reply =
     \<lparr>int_of_str = (\<lambda>s. None), float_of_str = (\<lambda>s. None), lower_unicode = (\<lambda>s. s),
      coerce_str = (\<lambda>v. None), part_from_bytes = (\<lambda>data mime. True),
      generate_content = (\<lambda>data mime. reply)\<rparr>"

definition is_dict :: "json \<Rightarrow> bool" where
  \<comment> \<open>\<open>isinstance(entry, dict)\<close>\<close>
  "is_dict v = (case v of JObj d \<Rightarrow> True | _ \<Rightarrow> False)"

definition is_list :: "json \<Rightarrow> bool" where
  \<comment> \<open>\<open>isinstance(departure_info, list)\<close>\<close>
  "is_list v = (case v of JArr xs \<Rightarrow> True | _ \<Rightarrow> False)"

lemmas norm_defs = normalize_def dict_get_def S_def norm_people_count_def norm_crowd_score_def
  norm_confidence_def norm_screen_detected_def norm_departure_type_def norm_departure_info_def
  validate_optional_str_def valid_types_def py_lower_def sample_runtime_def

lemma normalize_Inr:
  assumes "normalize rt (JObj d) = Inr r"
  shows "\<exists>pc cs cf cl ra.
           norm_people_count rt (dict_get d (S ''people_count'') JNull) = Inr pc
         \<and> norm_crowd_score rt (dict_get d (S ''crowd_score'') JNull) = Inr cs
         \<and> norm_confidence rt (dict_get d (S ''confidence'') JNull) = Inr cf
         \<and> validate_optional_str rt (dict_get d (S ''crowd_label'') JNull) = Inr cl
         \<and> validate_optional_str rt (dict_get d (S ''rationale'') (JStr [])) = Inr ra
         \<and> r = \<lparr>people_count = pc, crowd_score = cs, crowd_label = cl, confidence = cf,
                 rationale = ra,
                 screen_detected = norm_screen_detected (dict_get d (S ''screen_detected'') JNull),
                 departure_type =
                   norm_departure_type rt (dict_get d (S ''departure_type'') JNull)
                     (norm_screen_detected (dict_get d (S ''screen_detected'') JNull)),
                 departure_info = norm_departure_info (dict_get d (S ''departure_info'') JNull)\<rparr>"
  using assms unfolding normalize_def
  by (simp add: Let_def split: sum.splits)

lemma normalize_crowd_score:
  "normalize rt (JObj d) = Inr r \<Longrightarrow>
   norm_crowd_score rt (dict_get d (S ''crowd_score'') JNull) = Inr (crowd_score r)"
  by (drule normalize_Inr) auto

lemma normalize_people_count:
  "normalize rt (JObj d) = Inr r \<Longrightarrow>
   norm_people_count rt (dict_get d (S ''people_count'') JNull) = Inr (people_count r)"
  by (drule normalize_Inr) auto

lemma normalize_screen_detected:
  "normalize rt (JObj d) = Inr r \<Longrightarrow>
   screen_detected r = norm_screen_detected (dict_get d (S ''screen_detected'') JNull)"
  by (drule normalize_Inr) auto

lemma normalize_departure_type:
  "normalize rt (JObj d) = Inr r \<Longrightarrow>
   departure_type r =
     norm_departure_type rt (dict_get d (S ''departure_type'') JNull) (screen_detected r)"
  by (drule normalize_Inr) auto

lemma normalize_departure_info:
  "normalize rt (JObj d) = Inr r \<Longrightarrow>
   departure_info r = norm_departure_info (dict_get d (S ''departure_info'') JNull)"
  by (drule normalize_Inr) auto

text \<open>
  C1. When \<open>crowd_score\<close> is present in the parsed response and \<open>int(...)\<close> accepts it with
  value \<open>n\<close>, the normalized \<open>crowd_score\<close> lies in \<open>[1, 10]\<close>: it is 10 when \<open>n\<close> is above
  10, 1 when \<open>n\<close> is below 1, and \<open>n\<close> itself otherwise.
\<close>

theorem crowd_score_in_range:
  assumes "normalize rt (JObj d) = Inr r"
    and "py_int rt (dict_get d (S ''crowd_score'') JNull) = Inr n"
  shows "\<exists>m. crowd_score r = Some m \<and> 1 \<le> m \<and> m \<le> 10
           \<and> (10 < n \<longrightarrow> m = 10) \<and> (n < 1 \<longrightarrow> m = 1) \<and> (1 \<le> n \<and> n \<le> 10 \<longrightarrow> m = n)"
proof -
  have "dict_get d (S ''crowd_score'') JNull \<noteq> JNull"
    using assms(2) by auto
  then have "crowd_score r = Some (max 1 (min 10 n))"
    using normalize_crowd_score [OF assms(1)] assms(2) by (simp add: norm_crowd_score_def)
  then show ?thesis by auto
qed

theorem crowd_score_in_range_witness:
  "normalize (sample_runtime None) (JObj [(S ''crowd_score'', JInt 25)]) =
     Inr \<lparr>people_count = None, crowd_score = Some 10, crowd_label = None, confidence = None,
          rationale = Some [], screen_detected = None, departure_type = Some (S ''none''),
          departure_info = []\<rparr>
   \<and> py_int (sample_runtime None) (dict_get [(S ''crowd_score'', JInt 25)] (S ''crowd_score'') JNull)
       = Inr 25
   \<and> (\<exists>m. crowd_score \<lparr>people_count = None, crowd_score = Some 10, crowd_label = None,
                        confidence = None, rationale = Some [], screen_detected = None,
                        departure_type = Some (S ''none''), departure_info = []\<rparr> = Some m
          \<and> 1 \<le> m \<and> m \<le> 10 \<and> ((10::int) < 25 \<longrightarrow> m = 10) \<and> ((25::int) < 1 \<longrightarrow> m = 1)
          \<and> ((1::int) \<le> 25 \<and> (25::int) \<le> 10 \<longrightarrow> m = 25))"
proof -
  have h1: "normalize (sample_runtime None) (JObj [(S ''crowd_score'', JInt 25)]) =
     Inr \<lparr>people_count = None, crowd_score = Some 10, crowd_label = None, confidence = None,
          rationale = Some [], screen_detected = None, departure_type = Some (S ''none''),
          departure_info = []\<rparr>"
    by (simp add: norm_defs)
  have h2: "py_int (sample_runtime None)
              (dict_get [(S ''crowd_score'', JInt 25)] (S ''crowd_score'') JNull) = Inr 25"
    by (simp add: dict_get_def)
  show ?thesis
    using h1 h2 crowd_score_in_range [OF h1 h2] by simp
qed

text \<open>
  C2. The normalized \<open>departure_type\<close> is unset or one of \<open>flight\<close>, \<open>train\<close>, \<open>bus\<close>,
  \<open>subway\<close>, \<open>ferry\<close>, \<open>none\<close>, whatever the model emitted.
\<close>

theorem departure_type_closed_set:
  assumes "normalize rt (JObj d) = Inr r"
  shows "departure_type r = None
       \<or> departure_type r \<in> {Some (S ''flight''), Some (S ''train''), Some (S ''bus''),
                              Some (S ''subway''), Some (S ''ferry''), Some (S ''none'')}"
proof -
  have "departure_type r =
          norm_departure_type rt (dict_get d (S ''departure_type'') JNull) (screen_detected r)"
    using assms by (rule normalize_departure_type)
  then show ?thesis
    by (auto simp: norm_departure_type_def valid_types_def Let_def split: json.splits if_splits)
qed

theorem departure_type_closed_set_witness:
  "normalize (sample_runtime None)
     (JObj [(S ''screen_detected'', JBool True), (S ''departure_type'', JStr (S ''Helicopter''))]) =
     Inr \<lparr>people_count = None, crowd_score = None, crowd_label = None, confidence = None,
          rationale = Some [], screen_detected = Some True, departure_type = Some (S ''none''),
          departure_info = []\<rparr>
   \<and> (departure_type \<lparr>people_count = None, crowd_score = None, crowd_label = None,
          confidence = None, rationale = Some [], screen_detected = Some True,
          departure_type = Some (S ''none''), departure_info = []\<rparr> = None
      \<or> departure_type \<lparr>people_count = None, crowd_score = None, crowd_label = None,
          confidence = None, rationale = Some [], screen_detected = Some True,
          departure_type = Some (S ''none''), departure_info = []\<rparr>
          \<in> {Some (S ''flight''), Some (S ''train''), Some (S ''bus''),
              Some (S ''subway''), Some (S ''ferry''), Some (S ''none'')})"
proof -
  have h1: "normalize (sample_runtime None)
     (JObj [(S ''screen_detected'', JBool True), (S ''departure_type'', JStr (S ''Helicopter''))]) =
     Inr \<lparr>people_count = None, crowd_score = None, crowd_label = None, confidence = None,
          rationale = Some [], screen_detected = Some True, departure_type = Some (S ''none''),
          departure_info = []\<rparr>"
    by (simp add: norm_defs)
  show ?thesis
    using h1 departure_type_closed_set [OF h1] by simp
qed

text \<open>
  C4, as amended. A non-empty string is lower-cased first: the output is the lower-cased
  string when that is a member of the closed set, and \<open>none\<close> otherwise. So \<open>airplane\<close>
  gives \<open>none\<close>, while a variant in letter case only, such as \<open>Train\<close>, gives the member
  itself (\<open>train\<close>).
\<close>

theorem departure_type_of_string:
  assumes "normalize rt (JObj d) = Inr r"
    and "dict_get d (S ''departure_type'') JNull = JStr s"
    and "s \<noteq> []"
  shows "departure_type r =
           Some (if py_lower rt s \<in> set valid_types then py_lower rt s else S ''none'')"
  using normalize_departure_type [OF assms(1)] assms(2,3)
  by (simp add: norm_departure_type_def Let_def)

theorem departure_type_of_string_witness:
  "normalize (sample_runtime None) (JObj [(S ''departure_type'', JStr (S ''airplane''))]) =
     Inr \<lparr>people_count = None, crowd_score = None, crowd_label = None, confidence = None,
          rationale = Some [], screen_detected = None, departure_type = Some (S ''none''),
          departure_info = []\<rparr>
   \<and> dict_get [(S ''departure_type'', JStr (S ''airplane''))] (S ''departure_type'') JNull
       = JStr (S ''airplane'')
   \<and> S ''airplane'' \<noteq> []
   \<and> py_lower (sample_runtime None) (S ''airplane'') \<notin> set valid_types
   \<and> departure_type \<lparr>people_count = None, crowd_score = None, crowd_label = None,
        confidence = None, rationale = Some [], screen_detected = None,
        departure_type = Some (S ''none''), departure_info = []\<rparr> = Some (S ''none'')"
proof -
  have h1: "normalize (sample_runtime None) (JObj [(S ''departure_type'', JStr (S ''airplane''))]) =
     Inr \<lparr>people_count = None, crowd_score = None, crowd_label = None, confidence = None,
          rationale = Some [], screen_detected = None, departure_type = Some (S ''none''),
          departure_info = []\<rparr>"
    by (simp add: norm_defs)
  have h2: "dict_get [(S ''departure_type'', JStr (S ''airplane''))] (S ''departure_type'') JNull
       = JStr (S ''airplane'')"
    by (simp add: dict_get_def)
  have h3: "S ''airplane'' \<noteq> []"
    by (simp add: S_def)
  have h4: "py_lower (sample_runtime None) (S ''airplane'') \<notin> set valid_types"
    by (simp add: py_lower_def valid_types_def S_def)
  show ?thesis
    using h1 h2 h3 h4 departure_type_of_string [OF h1 h2 h3] by simp
qed

text \<open>The claim as stated fails: \<open>Train\<close> is normalized to \<open>train\<close>, not to \<open>none\<close>.\<close>

theorem departure_type_case_variant_counterexample:
  "map_sum id departure_type
     (normalize (sample_runtime None) (JObj [(S ''departure_type'', JStr (S ''Train''))]))
     = Inr (Some (S ''train''))
   \<and> S ''train'' \<noteq> S ''none''"
  by (simp add: norm_defs)

text \<open>
  C9, as amended. When \<open>people_count\<close> is absent (or \<open>null\<close>) in the parsed response it is
  absent in the output; otherwise the output holds \<open>int(...)\<close> of the value, with no lower
  bound: an integer, negative or not, is passed through unchanged.
\<close>

theorem people_count_coerced:
  assumes "normalize rt (JObj d) = Inr r"
  shows "(dict_get d (S ''people_count'') JNull = JNull \<longrightarrow> people_count r = None)
       \<and> (dict_get d (S ''people_count'') JNull \<noteq> JNull \<longrightarrow>
            (\<exists>n. py_int rt (dict_get d (S ''people_count'') JNull) = Inr n
                 \<and> people_count r = Some n))
       \<and> (\<forall>i. dict_get d (S ''people_count'') JNull = JInt i \<longrightarrow> people_count r = Some i)"
proof -
  let ?v = "dict_get d (S ''people_count'') JNull"
  have eq: "norm_people_count rt ?v = Inr (people_count r)"
    using assms by (rule normalize_people_count)
  have absent: "?v = JNull \<longrightarrow> people_count r = None"
    using eq by (auto simp: norm_people_count_def split: if_splits)
  have present: "?v \<noteq> JNull \<longrightarrow> (\<exists>n. py_int rt ?v = Inr n \<and> people_count r = Some n)"
  proof
    assume nn: "?v \<noteq> JNull"
    show "\<exists>n. py_int rt ?v = Inr n \<and> people_count r = Some n"
    proof (cases "py_int rt ?v")
      case (Inl e)
      then show ?thesis using eq nn by (simp add: norm_people_count_def)
    next
      case (Inr n)
      then have "people_count r = Some n"
        using eq nn by (simp add: norm_people_count_def)
      then show ?thesis using Inr by simp
    qed
  qed
  have ints: "\<forall>i. ?v = JInt i \<longrightarrow> people_count r = Some i"
    using present by auto
  show ?thesis using absent present ints by blast
qed

theorem people_count_coerced_witness:
  "normalize (sample_runtime None) (JObj [(S ''people_count'', JInt 12)]) =
     Inr \<lparr>people_count = Some 12, crowd_score = None, crowd_label = None, confidence = None,
          rationale = Some [], screen_detected = None, departure_type = Some (S ''none''),
          departure_info = []\<rparr>
   \<and> dict_get [(S ''people_count'', JInt 12)] (S ''people_count'') JNull = JInt 12
   \<and> people_count \<lparr>people_count = Some 12, crowd_score = None, crowd_label = None,
        confidence = None, rationale = Some [], screen_detected = None,
        departure_type = Some (S ''none''), departure_info = []\<rparr> = Some 12"
proof -
  have h1: "normalize (sample_runtime None) (JObj [(S ''people_count'', JInt 12)]) =
     Inr \<lparr>people_count = Some 12, crowd_score = None, crowd_label = None, confidence = None,
          rationale = Some [], screen_detected = None, departure_type = Some (S ''none''),
          departure_info = []\<rparr>"
    by (simp add: norm_defs)
  have h2: "dict_get [(S ''people_count'', JInt 12)] (S ''people_count'') JNull = JInt 12"
    by (simp add: dict_get_def)
  show ?thesis
    using h1 h2 people_count_coerced [OF h1] by simp
qed

text \<open>The claim as stated fails: a negative count is kept.\<close>

theorem people_count_negative_counterexample:
  "map_sum id people_count
     (normalize (sample_runtime None) (JObj [(S ''people_count'', JInt (- 5))]))
     = Inr (Some (- 5))
   \<and> \<not> (0::int) \<le> - 5"
  by (simp add: norm_defs)

text \<open>
  C10. A \<open>departure_type\<close> that is present but is the empty string or not a string is
  handled as an absent one: whatever \<open>str.lower\<close> does, the output is \<open>none\<close> when
  \<open>screen_detected\<close> is falsy or absent and unset when it is truthy.
\<close>

theorem departure_type_not_a_string:
  assumes "normalize rt (JObj d) = Inr r"
    and "\<not> is_nonempty_str (dict_get d (S ''departure_type'') JNull)"
  shows "departure_type r = norm_departure_type rt' JNull (screen_detected r)
       \<and> departure_type r = (if screen_detected r = Some True then None else Some (S ''none''))
       \<and> screen_detected r =
           (if dict_get d (S ''screen_detected'') JNull = JNull then None
            else Some (py_bool (dict_get d (S ''screen_detected'') JNull)))"
  using normalize_departure_type [OF assms(1)] normalize_screen_detected [OF assms(1)] assms(2)
  by (auto simp: norm_departure_type_def is_nonempty_str_def norm_screen_detected_def
           split: json.splits)

theorem departure_type_not_a_string_witness:
  "normalize (sample_runtime None)
     (JObj [(S ''screen_detected'', JInt 1), (S ''departure_type'', JArr [JStr (S ''bus'')])]) =
     Inr \<lparr>people_count = None, crowd_score = None, crowd_label = None, confidence = None,
          rationale = Some [], screen_detected = Some True, departure_type = None,
          departure_info = []\<rparr>
   \<and> \<not> is_nonempty_str
         (dict_get [(S ''screen_detected'', JInt 1), (S ''departure_type'', JArr [JStr (S ''bus'')])]
            (S ''departure_type'') JNull)
   \<and> departure_type \<lparr>people_count = None, crowd_score = None, crowd_label = None,
        confidence = None, rationale = Some [], screen_detected = Some True,
        departure_type = None, departure_info = []\<rparr> = None
   \<and> normalize (sample_runtime None) (JObj [(S ''departure_type'', JStr [])]) =
     Inr \<lparr>people_count = None, crowd_score = None, crowd_label = None, confidence = None,
          rationale = Some [], screen_detected = None, departure_type = Some (S ''none''),
          departure_info = []\<rparr>"
proof -
  have h1: "normalize (sample_runtime None)
     (JObj [(S ''screen_detected'', JInt 1), (S ''departure_type'', JArr [JStr (S ''bus'')])]) =
     Inr \<lparr>people_count = None, crowd_score = None, crowd_label = None, confidence = None,
          rationale = Some [], screen_detected = Some True, departure_type = None,
          departure_info = []\<rparr>"
    by (simp add: norm_defs)
  have h2: "\<not> is_nonempty_str
         (dict_get [(S ''screen_detected'', JInt 1), (S ''departure_type'', JArr [JStr (S ''bus'')])]
            (S ''departure_type'') JNull)"
    by (simp add: dict_get_def is_nonempty_str_def S_def)
  have h3: "normalize (sample_runtime None) (JObj [(S ''departure_type'', JStr [])]) =
     Inr \<lparr>people_count = None, crowd_score = None, crowd_label = None, confidence = None,
          rationale = Some [], screen_detected = None, departure_type = Some (S ''none''),
          departure_info = []\<rparr>"
    by (simp add: norm_defs)
  show ?thesis
    using h1 h2 h3 departure_type_not_a_string [OF h1 h2] by simp
qed

section \<open>Properties of \<open>departure_info\<close>\<close>

lemma map_of_dict_set:
  "map_of (dict_set d k v) k' = (if k' = k then Some v else map_of d k')"
  by (induction d k v rule: dict_set.induct) auto

lemma dict_get_dict_set_other:
  "k' \<noteq> k \<Longrightarrow> dict_get (dict_set d k v) k' dflt = dict_get d k' dflt"
  by (simp add: dict_get_def map_of_dict_set)

lemma dict_get_dict_set_same: "dict_get (dict_set d k v) k dflt = v"
  by (simp add: dict_get_def map_of_dict_set)

lemma normalize_dict_set_departure_info:
  "normalize rt (JObj (dict_set d (S ''departure_info'') v)) =
     map_sum id (\<lambda>r. r\<lparr>departure_info := norm_departure_info v\<rparr>) (normalize rt (JObj d))"
proof -
  have keys: "S ''people_count'' \<noteq> S ''departure_info''"
    "S ''crowd_score'' \<noteq> S ''departure_info''"
    "S ''confidence'' \<noteq> S ''departure_info''"
    "S ''screen_detected'' \<noteq> S ''departure_info''"
    "S ''departure_type'' \<noteq> S ''departure_info''"
    "S ''crowd_label'' \<noteq> S ''departure_info''"
    "S ''rationale'' \<noteq> S ''departure_info''"
    by (simp_all add: S_def)
  show ?thesis
    unfolding normalize_def
    by (simp add: dict_get_dict_set_other [OF keys(1)] dict_get_dict_set_other [OF keys(2)]
          dict_get_dict_set_other [OF keys(3)] dict_get_dict_set_other [OF keys(4)]
          dict_get_dict_set_other [OF keys(5)] dict_get_dict_set_other [OF keys(6)]
          dict_get_dict_set_other [OF keys(7)] dict_get_dict_set_same Let_def
        split: sum.splits)
qed

lemma norm_departure_info_JArr:
  "map JObj (norm_departure_info (JArr entries)) = filter is_dict entries"
proof (induction entries)
  case Nil
  show ?case by (simp add: norm_departure_info_def)
next
  case (Cons e es)
  then show ?case
    by (cases e) (simp_all add: norm_departure_info_def is_dict_def)
qed

text \<open>
  C8. The normalization of \<open>departure_info\<close> never fails: whether \<open>normalize\<close> returns a
  result does not depend on the \<open>departure_info\<close> of the parsed response. A value that is
  absent or not a list gives the empty list; a list gives exactly its entries that are
  \<open>dict\<close>s, in their order.
\<close>

theorem departure_info_filtered:
  "(\<not> is_list v \<longrightarrow> norm_departure_info v = [])
   \<and> map JObj (norm_departure_info (JArr entries)) = filter is_dict entries
   \<and> (normalize rt (JObj d) = Inr r \<longrightarrow>
        departure_info r = norm_departure_info (dict_get d (S ''departure_info'') JNull))
   \<and> isl (normalize rt (JObj (dict_set d (S ''departure_info'') v))) = isl (normalize rt (JObj d))"
proof -
  have a: "\<not> is_list v \<longrightarrow> norm_departure_info v = []"
    by (cases v) (simp_all add: is_list_def norm_departure_info_def)
  have c: "normalize rt (JObj d) = Inr r \<longrightarrow>
        departure_info r = norm_departure_info (dict_get d (S ''departure_info'') JNull)"
    by (simp add: normalize_departure_info)
  have e: "isl (normalize rt (JObj (dict_set d (S ''departure_info'') v)))
             = isl (normalize rt (JObj d))"
    by (cases "normalize rt (JObj d)") (simp_all add: normalize_dict_set_departure_info)
  show ?thesis
    using a norm_departure_info_JArr c e by blast
qed

theorem departure_info_filtered_witness:
  "\<not> is_list (JStr (S ''n/a''))
   \<and> norm_departure_info (JStr (S ''n/a'')) = []
   \<and> normalize (sample_runtime None)
        (JObj [(S ''departure_info'',
                JArr [JStr (S ''BA117''), JObj [(S ''gate'', JStr (S ''12''))], JInt 7])]) =
      Inr \<lparr>people_count = None, crowd_score = None, crowd_label = None, confidence = None,
           rationale = Some [], screen_detected = None, departure_type = Some (S ''none''),
           departure_info = [[(S ''gate'', JStr (S ''12''))]]\<rparr>
   \<and> filter is_dict [JStr (S ''BA117''), JObj [(S ''gate'', JStr (S ''12''))], JInt 7]
        = [JObj [(S ''gate'', JStr (S ''12''))]]"
proof -
  have h0: "\<not> is_list (JStr (S ''n/a''))"
    by (simp add: is_list_def)
  have h1: "normalize (sample_runtime None)
        (JObj [(S ''departure_info'',
                JArr [JStr (S ''BA117''), JObj [(S ''gate'', JStr (S ''12''))], JInt 7])]) =
      Inr \<lparr>people_count = None, crowd_score = None, crowd_label = None, confidence = None,
           rationale = Some [], screen_detected = None, departure_type = Some (S ''none''),
           departure_info = [[(S ''gate'', JStr (S ''12''))]]\<rparr>"
    by (simp add: norm_defs)
  have h2: "filter is_dict [JStr (S ''BA117''), JObj [(S ''gate'', JStr (S ''12''))], JInt 7]
        = [JObj [(S ''gate'', JStr (S ''12''))]]"
    by (simp add: is_dict_def)
  show ?thesis
    using h0 h1 h2
      departure_info_filtered [of "JStr (S ''n/a'')"
        "[JStr (S ''BA117''), JObj [(S ''gate'', JStr (S ''12''))], JInt 7]"
        "sample_runtime None"
        "[(S ''departure_info'',
           JArr [JStr (S ''BA117''), JObj [(S ''gate'', JStr (S ''12''))], JInt 7])]"]
    by simp
qed

section \<open>Properties of \<open>extract_first_json\<close>\<close>

lemmas json_eval = S_def search_object_def json_loads_def skip_ws_def is_json_ws_def
  scan_once.simps JSONObject_loop.simps JSONArray_loop.simps scanstring_def scanstring_loop.simps
  is_terminator_def match_number_def match_integer_def match_frac_def match_exp_def is_digit_def
  parse_int_def nat_of_digits_def dict_of_def sub_trailing_comma.simps is_space_def
  extract_first_json_def Let_def

lemma search_object_None:
  assumes "\<not> (\<exists>i j. i < j \<and> j < length text
                  \<and> text ! i = ch CHR ''{'' \<and> text ! j = ch CHR ''}'')"
  shows "search_object text = None"
proof (cases "dropWhile (\<lambda>c. c \<noteq> ch CHR ''{'') text")
  case Nil
  show ?thesis unfolding search_object_def Nil by simp
next
  case (Cons b r)
  define p where "p = takeWhile (\<lambda>c. c \<noteq> ch CHR ''{'') text"
  have decomp: "text = p @ b # r"
    unfolding p_def using Cons by (metis takeWhile_dropWhile_id)
  have "dropWhile (\<lambda>c. c \<noteq> ch CHR ''{'') text \<noteq> []"
    unfolding Cons by simp
  then have "\<not> (hd (dropWhile (\<lambda>c. c \<noteq> ch CHR ''{'') text) \<noteq> ch CHR ''{'')"
    by (rule hd_dropWhile)
  then have b: "b = ch CHR ''{''"
    unfolding Cons by simp
  have "ch CHR ''}'' \<notin> set r"
  proof
    assume "ch CHR ''}'' \<in> set r"
    then obtain k where k: "k < length r" "r ! k = ch CHR ''}''"
      by (auto simp: in_set_conv_nth)
    have i: "text ! length p = ch CHR ''{''"
      using b by (simp add: decomp)
    have j: "text ! (length p + Suc k) = ch CHR ''}''"
      using k by (simp add: decomp nth_append)
    have len: "length p + Suc k < length text"
      using k by (simp add: decomp)
    have "\<exists>i j. i < j \<and> j < length text
            \<and> text ! i = ch CHR ''{'' \<and> text ! j = ch CHR ''}''"
    proof (intro exI conjI)
      show "length p < length p + Suc k" by simp
      show "length p + Suc k < length text" by (rule len)
      show "text ! length p = ch CHR ''{''" by (rule i)
      show "text ! (length p + Suc k) = ch CHR ''}''" by (rule j)
    qed
    then show False
      using assms by (rule rev_notE)
  qed
  then show ?thesis
    unfolding search_object_def Cons by simp
qed

lemma no_opening_brace:
  "ch CHR ''{'' \<notin> set text \<Longrightarrow>
   \<not> (\<exists>i j. i < j \<and> j < length text \<and> text ! i = ch CHR ''{'' \<and> text ! j = ch CHR ''}'')"
proof
  assume none: "ch CHR ''{'' \<notin> set text"
    and "\<exists>i j. i < j \<and> j < length text \<and> text ! i = ch CHR ''{'' \<and> text ! j = ch CHR ''}''"
  then obtain i j where ij: "i < j" "j < length text" "text ! i = ch CHR ''{''"
    by blast
  then have "i < length text" by simp
  then have "text ! i \<in> set text" by (rule nth_mem)
  then show False using none ij(3) by simp
qed

text \<open>
  C6. When the raw text has no \<open>{\<close> that is followed, later, by a \<open>}\<close> (in particular when
  it has no \<open>{\<close> at all), \<open>extract_first_json\<close> raises the \<open>ValueError\<close>
  \<open>No JSON object found in model response\<close>, and the endpoint answers with status 502.
\<close>

theorem no_json_object_found:
  assumes "\<not> (\<exists>i j. i < j \<and> j < length text
                  \<and> text ! i = ch CHR ''{'' \<and> text ! j = ch CHR ''}'')"
  shows "extract_first_json text =
           Inl (ValueError (S ''No JSON object found in model response''))
       \<and> respond rt text =
           Inl (HTTPException 502 (S ''Model returned unexpected output format''))
       \<and> (contents file \<noteq> [] \<and> length (contents file) \<le> MAX_UPLOAD_BYTES
            \<and> invoke_model rt file = Inr text \<longrightarrow>
          analyze_image rt file =
            Inl (HTTPException 502 (S ''Model returned unexpected output format'')))"
proof -
  have ex: "extract_first_json text =
           Inl (ValueError (S ''No JSON object found in model response''))"
    using search_object_None [OF assms] by (simp add: extract_first_json_def)
  then have re: "respond rt text =
           Inl (HTTPException 502 (S ''Model returned unexpected output format''))"
    by (simp add: respond_def)
  then show ?thesis
    using ex by (auto simp: analyze_image_def)
qed

theorem no_json_object_found_witness:
  "\<not> (\<exists>i j. i < j \<and> j < length (S ''I cannot analyze this image.'')
          \<and> S ''I cannot analyze this image.'' ! i = ch CHR ''{''
          \<and> S ''I cannot analyze this image.'' ! j = ch CHR ''}'')
   \<and> extract_first_json (S ''I cannot analyze this image.'') =
       Inl (ValueError (S ''No JSON object found in model response''))
   \<and> analyze_image (sample_runtime (Some (Some (S ''I cannot analyze this image.''))))
       \<lparr>contents = [0xFF, 0xD8], content_type = Some (S ''image/jpeg'')\<rparr> =
       Inl (HTTPException 502 (S ''Model returned unexpected output format''))"
proof -
  have h: "\<not> (\<exists>i j. i < j \<and> j < length (S ''I cannot analyze this image.'')
          \<and> S ''I cannot analyze this image.'' ! i = ch CHR ''{''
          \<and> S ''I cannot analyze this image.'' ! j = ch CHR ''}'')"
    by (rule no_opening_brace) (simp add: S_def)
  have inv: "invoke_model (sample_runtime (Some (Some (S ''I cannot analyze this image.''))))
       \<lparr>contents = [0xFF, 0xD8], content_type = Some (S ''image/jpeg'')\<rparr>
       = Inr (S ''I cannot analyze this image.'')"
    by (simp add: invoke_model_def sample_runtime_def S_def)
  show ?thesis
    using h inv
      no_json_object_found [OF h,
        of "sample_runtime (Some (Some (S ''I cannot analyze this image.'')))"
           "\<lparr>contents = [0xFF, 0xD8], content_type = Some (S ''image/jpeg'')\<rparr>"]
    by (simp add: MAX_UPLOAD_BYTES_def)
qed




section \<open>Properties of the request validation\<close>

text \<open>
  An environment in which the outcome depends on the upload: the image part is refused for
  the type \<open>text/plain\<close>, the model call fails on an image that starts with a zero byte, and
  otherwise the model reports the number of bytes it was given as \<open>people_count\<close>.
\<close>

definition counting_runtime :: runtime where
  "counting_runtime =
     \<lparr>int_of_str = (\<lambda>s. None), float_of_str = (\<lambda>s. None), lower_unicode = (\<lambda>s. s),
      coerce_str = (\<lambda>v. None),
      part_from_bytes = (\<lambda>data mime. mime \<noteq> S ''text/plain''),
      generate_content =
        (\<lambda>data mime.
           if take 1 data = [0] then None
           else Some (Some (S ''{\"people_count\": '' @ digits_of_nat (length data) @ S ''}'')))\<rparr>"

lemma digits_of_MAX_UPLOAD_BYTES: "digits_of_nat MAX_UPLOAD_BYTES = S ''5242880''"
  by (simp add: MAX_UPLOAD_BYTES_def digits_of_nat.simps S_def)

lemma invoke_model_status:
  "invoke_model rt file = Inl e \<Longrightarrow> status_code e = 500 \<or> status_code e = 502"
  by (auto simp: invoke_model_def Let_def split: if_splits option.splits)

lemma respond_status:
  "respond rt raw_text = Inl e \<Longrightarrow> status_code e = 500 \<or> status_code e = 502"
  by (auto simp: respond_def split: sum.splits option.splits)

text \<open>
  C3. An empty upload is refused with status 400 and the detail \<open>Empty file\<close>, whatever its
  declared content type; an upload of more than \<open>5 * 1024 * 1024\<close> bytes is refused with
  status 413. Every other upload passes the validation and is forwarded: the image part is
  built from the uploaded bytes and the declared type (\<open>image/jpeg\<close> when none is declared),
  and, when that succeeds, the model is called on the same bytes and its reply decides the
  response. An error after the validation has status 500 or 502, never 400 or 413.
\<close>

theorem upload_validation:
  "(contents file = [] \<longrightarrow>
      analyze_image rt file = Inl (HTTPException 400 (S ''Empty file'')))
   \<and> (5 * 1024 * 1024 < length (contents file) \<longrightarrow>
      analyze_image rt file =
        Inl (HTTPException 413 (S ''File too large. Max 5242880 bytes allowed.'')))
   \<and> (contents file \<noteq> [] \<and> length (contents file) \<le> 5 * 1024 * 1024
        \<and> mime = (case content_type file of
                     None \<Rightarrow> S ''image/jpeg''
                   | Some t \<Rightarrow> if t = [] then S ''image/jpeg'' else t) \<longrightarrow>
      analyze_image rt file =
        (if \<not> part_from_bytes rt (contents file) mime
         then Inl (HTTPException 500 (S ''Failed to prepare image for analysis''))
         else
           (case generate_content rt (contents file) mime of
              None \<Rightarrow> Inl (HTTPException 502 (S ''Vision model request failed''))
            | Some None \<Rightarrow> respond rt []
            | Some (Some text) \<Rightarrow> respond rt text))
      \<and> (\<forall>e. analyze_image rt file = Inl e \<longrightarrow> status_code e = 500 \<or> status_code e = 502))"
proof -
  have empty: "contents file = [] \<longrightarrow>
      analyze_image rt file = Inl (HTTPException 400 (S ''Empty file''))"
    by (simp add: analyze_image_def)
  have large: "5 * 1024 * 1024 < length (contents file) \<longrightarrow>
      analyze_image rt file =
        Inl (HTTPException 413 (S ''File too large. Max 5242880 bytes allowed.''))"
  proof
    assume big: "5 * 1024 * 1024 < length (contents file)"
    then have ne: "contents file \<noteq> []" by auto
    have "MAX_UPLOAD_BYTES < length (contents file)"
      using big by (simp add: MAX_UPLOAD_BYTES_def)
    then have "analyze_image rt file =
        Inl (HTTPException 413
               (S ''File too large. Max '' @ digits_of_nat MAX_UPLOAD_BYTES @ S '' bytes allowed.''))"
      using ne by (simp add: analyze_image_def)
    then show "analyze_image rt file =
        Inl (HTTPException 413 (S ''File too large. Max 5242880 bytes allowed.''))"
      by (simp add: digits_of_MAX_UPLOAD_BYTES S_def)
  qed
  have ok: "contents file \<noteq> [] \<and> length (contents file) \<le> 5 * 1024 * 1024
        \<and> mime = (case content_type file of
                     None \<Rightarrow> S ''image/jpeg''
                   | Some t \<Rightarrow> if t = [] then S ''image/jpeg'' else t) \<longrightarrow>
      analyze_image rt file =
        (if \<not> part_from_bytes rt (contents file) mime
         then Inl (HTTPException 500 (S ''Failed to prepare image for analysis''))
         else
           (case generate_content rt (contents file) mime of
              None \<Rightarrow> Inl (HTTPException 502 (S ''Vision model request failed''))
            | Some None \<Rightarrow> respond rt []
            | Some (Some text) \<Rightarrow> respond rt text))
      \<and> (\<forall>e. analyze_image rt file = Inl e \<longrightarrow> status_code e = 500 \<or> status_code e = 502)"
  proof
    assume h: "contents file \<noteq> [] \<and> length (contents file) \<le> 5 * 1024 * 1024
        \<and> mime = (case content_type file of
                     None \<Rightarrow> S ''image/jpeg''
                   | Some t \<Rightarrow> if t = [] then S ''image/jpeg'' else t)"
    then have small: "\<not> MAX_UPLOAD_BYTES < length (contents file)"
      by (simp add: MAX_UPLOAD_BYTES_def)
    have eq: "analyze_image rt file =
        (case invoke_model rt file of Inl e \<Rightarrow> Inl e | Inr raw_text \<Rightarrow> respond rt raw_text)"
      using h small by (simp add: analyze_image_def)
    have forwarded: "analyze_image rt file =
        (if \<not> part_from_bytes rt (contents file) mime
         then Inl (HTTPException 500 (S ''Failed to prepare image for analysis''))
         else
           (case generate_content rt (contents file) mime of
              None \<Rightarrow> Inl (HTTPException 502 (S ''Vision model request failed''))
            | Some None \<Rightarrow> respond rt []
            | Some (Some text) \<Rightarrow> respond rt text))"
      unfolding eq using h
      by (simp add: invoke_model_def Let_def split: option.splits)
    have "\<forall>e. analyze_image rt file = Inl e \<longrightarrow> status_code e = 500 \<or> status_code e = 502"
      unfolding eq
      by (cases "invoke_model rt file") (auto dest: invoke_model_status respond_status)
    then show "analyze_image rt file =
        (if \<not> part_from_bytes rt (contents file) mime
         then Inl (HTTPException 500 (S ''Failed to prepare image for analysis''))
         else
           (case generate_content rt (contents file) mime of
              None \<Rightarrow> Inl (HTTPException 502 (S ''Vision model request failed''))
            | Some None \<Rightarrow> respond rt []
            | Some (Some text) \<Rightarrow> respond rt text))
      \<and> (\<forall>e. analyze_image rt file = Inl e \<longrightarrow> status_code e = 500 \<or> status_code e = 502)"
      using forwarded by simp
  qed
  show ?thesis
    by (intro conjI) (rule empty, rule large, rule ok)
qed

lemmas handler_eval = analyze_image_def invoke_model_def respond_def counting_runtime_def
  MAX_UPLOAD_BYTES_def digits_of_nat.simps render_def result_dict_def encodable_def

theorem upload_validation_witness:
  "contents \<lparr>contents = [], content_type = Some (S ''image/png'')\<rparr> = []
   \<and> analyze_image counting_runtime \<lparr>contents = [], content_type = Some (S ''image/png'')\<rparr>
       = Inl (HTTPException 400 (S ''Empty file''))
   \<and> 5 * 1024 * 1024 < length (contents \<lparr>contents = replicate 5242881 1, content_type = None\<rparr>)
   \<and> analyze_image counting_runtime \<lparr>contents = replicate 5242881 1, content_type = None\<rparr>
       = Inl (HTTPException 413 (S ''File too large. Max 5242880 bytes allowed.''))
   \<and> contents \<lparr>contents = [0x89, 0x50], content_type = None\<rparr> \<noteq> []
   \<and> length (contents \<lparr>contents = [0x89, 0x50], content_type = None\<rparr>) \<le> 5 * 1024 * 1024
   \<and> part_from_bytes counting_runtime [0x89, 0x50] (S ''image/jpeg'')
   \<and> generate_content counting_runtime [0x89, 0x50] (S ''image/jpeg'')
       = Some (Some (S ''{\"people_count\": 2}''))
   \<and> analyze_image counting_runtime \<lparr>contents = [0x89, 0x50], content_type = None\<rparr>
       = Inr \<lparr>people_count = Some 2, crowd_score = None, crowd_label = None,
              confidence = None, rationale = Some [], screen_detected = None,
              departure_type = Some (S ''none''), departure_info = []\<rparr>
   \<and> analyze_image counting_runtime
         \<lparr>contents = [0x89, 0x50, 0x4E], content_type = Some (S ''image/png'')\<rparr>
       = Inr \<lparr>people_count = Some 3, crowd_score = None, crowd_label = None,
              confidence = None, rationale = Some [], screen_detected = None,
              departure_type = Some (S ''none''), departure_info = []\<rparr>
   \<and> analyze_image counting_runtime \<lparr>contents = [0, 0x50], content_type = None\<rparr>
       = Inl (HTTPException 502 (S ''Vision model request failed''))
   \<and> analyze_image counting_runtime
         \<lparr>contents = [0x89, 0x50], content_type = Some (S ''text/plain'')\<rparr>
       = Inl (HTTPException 500 (S ''Failed to prepare image for analysis''))"
proof -
  have part: "part_from_bytes counting_runtime [0x89, 0x50] (S ''image/jpeg'')"
    by (simp add: counting_runtime_def S_def)
  have reply: "generate_content counting_runtime [0x89, 0x50] (S ''image/jpeg'')
       = Some (Some (S ''{\"people_count\": 2}''))"
    by (simp add: counting_runtime_def S_def digits_of_nat.simps)
  have two: "respond counting_runtime (S ''{\"people_count\": 2}'')
       = Inr \<lparr>people_count = Some 2, crowd_score = None, crowd_label = None,
              confidence = None, rationale = Some [], screen_detected = None,
              departure_type = Some (S ''none''), departure_info = []\<rparr>"
    by (simp add: handler_eval json_eval norm_defs)
  have three: "analyze_image counting_runtime
         \<lparr>contents = [0x89, 0x50, 0x4E], content_type = Some (S ''image/png'')\<rparr>
       = Inr \<lparr>people_count = Some 3, crowd_score = None, crowd_label = None,
              confidence = None, rationale = Some [], screen_detected = None,
              departure_type = Some (S ''none''), departure_info = []\<rparr>"
    by (simp add: handler_eval json_eval norm_defs)
  have refused: "analyze_image counting_runtime \<lparr>contents = [0, 0x50], content_type = None\<rparr>
       = Inl (HTTPException 502 (S ''Vision model request failed''))"
    by (simp add: handler_eval S_def)
  have unprepared: "analyze_image counting_runtime
         \<lparr>contents = [0x89, 0x50], content_type = Some (S ''text/plain'')\<rparr>
       = Inl (HTTPException 500 (S ''Failed to prepare image for analysis''))"
    by (simp add: handler_eval S_def)
  show ?thesis
    using part reply two three refused unprepared
      upload_validation [of "\<lparr>contents = [], content_type = Some (S ''image/png'')\<rparr>"
                            counting_runtime]
      upload_validation [of "\<lparr>contents = replicate 5242881 1, content_type = None\<rparr>"
                            counting_runtime]
      upload_validation [of "\<lparr>contents = [0x89, 0x50], content_type = None\<rparr>"
                            counting_runtime "S ''image/jpeg''"]
    by simp
qed

section \<open>Extraction of a serialized object\<close>









end
